theory Spec2Isabelle
  imports Main "HOL-Library.Multiset" "HOL-Library.Option_ord"
begin

section \<open>Schema registry\<close>

text \<open>
  The table definitions of \<^verbatim>\<open>src/drizzle/schema.ts\<close> and of the migration that creates
  \<^verbatim>\<open>users\<close> (the \<^verbatim>\<open>CREATE TABLE\<close> statement), as data. A column carries its name in the
  database, its type, and the modifiers the builder calls set; a table carries its columns, its
  unique constraints and its foreign keys.
\<close>

datatype column_type = Serial | Varchar nat | Text | Boolean | Timestamp | Integer

datatype column_default = DefaultInt int | DefaultBool bool | DefaultNow

datatype on_delete_action = NoAction | Restrict | Cascade | SetNull | SetDefault

record column =
  col_name :: string
  col_type :: column_type
  col_primary_key :: bool
  col_not_null :: bool
  col_default :: "column_default option"

record unique_constraint =
  uq_name :: string
  uq_columns :: "string list"

record foreign_key =
  fk_name :: string
  fk_columns :: "string list"
  fk_foreign_table :: string
  fk_foreign_columns :: "string list"
  fk_on_delete :: on_delete_action

record pg_table =
  tbl_name :: string
  tbl_columns :: "column list"
  tbl_unique :: "unique_constraint list"
  tbl_foreign_keys :: "foreign_key list"

text \<open>
  \<^verbatim>\<open>categories\<close>: \<^verbatim>\<open>id: serial().primaryKey().notNull()\<close>,
  \<^verbatim>\<open>name: varchar({ length: 100 }).notNull()\<close>, and
  \<^verbatim>\<open>unique('categories_name_key').on(table.name)\<close>.
\<close>

definition categories :: pg_table where
  "categories =
     \<lparr>tbl_name = ''categories'',
      tbl_columns =
        [\<lparr>col_name = ''id'', col_type = Serial, col_primary_key = True, col_not_null = True,
          col_default = None\<rparr>,
         \<lparr>col_name = ''name'', col_type = Varchar 100, col_primary_key = False,
          col_not_null = True, col_default = None\<rparr>],
      tbl_unique = [\<lparr>uq_name = ''categories_name_key'', uq_columns = [''name'']\<rparr>],
      tbl_foreign_keys = []\<rparr>"

text \<open>
  The foreign key of \<^verbatim>\<open>tasks\<close>:
  \<^verbatim>\<open>foreignKey({ columns: [table.categoryId], foreignColumns: [categories.id],
  name: 'tasks_category_id_fkey' }).onDelete('set null')\<close>.
\<close>

definition tasks_category_id_fkey :: foreign_key where
  "tasks_category_id_fkey =
     \<lparr>fk_name = ''tasks_category_id_fkey'',
      fk_columns = [''category_id''],
      fk_foreign_table = ''categories'',
      fk_foreign_columns = [''id''],
      fk_on_delete = SetNull\<rparr>"

definition tasks :: pg_table where
  "tasks =
     \<lparr>tbl_name = ''tasks'',
      tbl_columns =
        [\<lparr>col_name = ''id'', col_type = Serial, col_primary_key = True, col_not_null = True,
          col_default = None\<rparr>,
         \<lparr>col_name = ''title'', col_type = Text, col_primary_key = False, col_not_null = True,
          col_default = None\<rparr>,
         \<lparr>col_name = ''done'', col_type = Boolean, col_primary_key = False,
          col_not_null = False, col_default = Some (DefaultBool False)\<rparr>,
         \<lparr>col_name = ''created_at'', col_type = Timestamp, col_primary_key = False,
          col_not_null = False, col_default = Some DefaultNow\<rparr>,
         \<lparr>col_name = ''category_id'', col_type = Integer, col_primary_key = False,
          col_not_null = False, col_default = None\<rparr>],
      tbl_unique = [],
      tbl_foreign_keys = [tasks_category_id_fkey]\<rparr>"

text \<open>
  \<^verbatim>\<open>users\<close> in the schema file: \<^verbatim>\<open>id: serial('id').primaryKey()\<close>,
  \<^verbatim>\<open>username: varchar('username', { length: 255 }).notNull().unique()\<close>,
  \<^verbatim>\<open>email: text('email').notNull().unique()\<close>, \<^verbatim>\<open>age: integer('age').default(0)\<close>.
  A primary key column is not null, and \<^verbatim>\<open>.unique()\<close> without a name gets the name
  \<^verbatim>\<open>users_<column>_unique\<close>; both are what the migration written from this table shows.
\<close>

definition users :: pg_table where
  "users =
     \<lparr>tbl_name = ''users'',
      tbl_columns =
        [\<lparr>col_name = ''id'', col_type = Serial, col_primary_key = True, col_not_null = True,
          col_default = None\<rparr>,
         \<lparr>col_name = ''username'', col_type = Varchar 255, col_primary_key = False,
          col_not_null = True, col_default = None\<rparr>,
         \<lparr>col_name = ''email'', col_type = Text, col_primary_key = False, col_not_null = True,
          col_default = None\<rparr>,
         \<lparr>col_name = ''age'', col_type = Integer, col_primary_key = False,
          col_not_null = False, col_default = Some (DefaultInt 0)\<rparr>],
      tbl_unique =
        [\<lparr>uq_name = ''users_username_unique'', uq_columns = [''username'']\<rparr>,
         \<lparr>uq_name = ''users_email_unique'', uq_columns = [''email'']\<rparr>],
      tbl_foreign_keys = []\<rparr>"

text \<open>
  The migration: \<^verbatim>\<open>CREATE TABLE "users" ("id" serial PRIMARY KEY NOT NULL,
  "username" varchar(255) NOT NULL, "email" text NOT NULL,
  CONSTRAINT "users_username_unique" UNIQUE("username"),
  CONSTRAINT "users_email_unique" UNIQUE("email"))\<close>.
\<close>

definition users_migration :: pg_table where
  "users_migration =
     \<lparr>tbl_name = ''users'',
      tbl_columns =
        [\<lparr>col_name = ''id'', col_type = Serial, col_primary_key = True, col_not_null = True,
          col_default = None\<rparr>,
         \<lparr>col_name = ''username'', col_type = Varchar 255, col_primary_key = False,
          col_not_null = True, col_default = None\<rparr>,
         \<lparr>col_name = ''email'', col_type = Text, col_primary_key = False, col_not_null = True,
          col_default = None\<rparr>],
      tbl_unique =
        [\<lparr>uq_name = ''users_username_unique'', uq_columns = [''username'']\<rparr>,
         \<lparr>uq_name = ''users_email_unique'', uq_columns = [''email'']\<rparr>],
      tbl_foreign_keys = []\<rparr>"

section \<open>Records and the store\<close>

text \<open>
  A row of \<^verbatim>\<open>users\<close> is the \<^verbatim>\<open>User\<close> interface of the command-line tool
  (\<^verbatim>\<open>id: number; email: string; username: string; age: number | null\<close>); rows of the other
  two tables follow the columns of their table definitions. A nullable column is an
  \<open>option\<close>.
\<close>

record user =
  u_id :: int
  u_email :: string
  u_username :: string
  u_age :: "int option"

record category =
  c_id :: int
  c_name :: string

record task =
  t_id :: int
  t_title :: string
  t_done :: "bool option"
  t_createdAt :: "string option"
  t_categoryId :: "int option"

text \<open>
  The state behind the connection \<^verbatim>\<open>db\<close>: the rows of each table in the order they were
  stored, and the next value of the sequence behind \<^verbatim>\<open>users.id\<close> (a \<^verbatim>\<open>serial\<close>
  column takes its value from a sequence that counts up from 1).
\<close>

record db =
  rows_users :: "user list"
  seq_users_id :: int
  rows_categories :: "category list"
  rows_tasks :: "task list"

definition empty_db :: db where
  "empty_db = \<lparr>rows_users = [], seq_users_id = 1, rows_categories = [], rows_tasks = []\<rparr>"

text \<open>
  What a call can fail with: a breach of a unique constraint (the constraint's name and the
  columns it is on), a breach of a foreign key, a number outside the 32 bits of an integer
  column (the column), a text longer than its column allows (the column), a sequence at its
  end (the sequence), a request with nothing to write, a negative limit or offset, and an
  exception the caller's own code throws.
\<close>

datatype error =
    UniqueViolation string "string list"
  | ForeignKeyViolation string
  | IntegerOutOfRange string
  | ValueTooLong string
  | SequenceExhausted string
  | NoValuesToSet
  | NoValuesToInsert
  | NegativeLimit
  | NegativeOffset
  | Thrown string

text \<open>
  Modelled from the spec: the database's check of a number that a statement compares with
  or writes to an \<^verbatim>\<open>integer\<close> or \<^verbatim>\<open>serial\<close> column; its code is not among the
  sources and the spec is silent on it. The number is sent as a parameter of the
  column's type, 32 bits wide; one outside that range makes the statement fail when it
  is bound, before a row is read or written.
\<close>

definition int4 :: "int \<Rightarrow> bool" where
  "int4 i = (- 2147483648 \<le> i \<and> i \<le> 2147483647)"

section \<open>Predicate builder\<close>

text \<open>
  Modelled from the spec: the operators \<^verbatim>\<open>eq\<close>, \<^verbatim>\<open>gt\<close>, \<^verbatim>\<open>lt\<close>, \<^verbatim>\<open>gte\<close>,
  \<^verbatim>\<open>lte\<close>, \<^verbatim>\<open>like\<close>, \<^verbatim>\<open>and\<close> and \<^verbatim>\<open>or\<close> are imported from the
  \<^verbatim>\<open>drizzle-orm\<close> package and evaluated by the database; their code is not among the
  sources. They are the spec's predicate builder: a predicate is an expression over one
  entity's fields, evaluated per record, here a function from a row to a truth value. The
  spec does not say what a comparison with an absent (null) column is; the rule of SQL is
  taken, whose truth values have a third one for it: such a comparison is neither true nor
  false, a conjunction is true when both sides are and false when one side is, a
  disjunction is true when one side is and false when both are, and a \<^verbatim>\<open>where\<close>
  keeps the rows on which its predicate is true.
\<close>

datatype sql_bool = STrue | SFalse | SNull

type_synonym 'r pred = "'r \<Rightarrow> sql_bool"

definition sql_of_bool :: "bool \<Rightarrow> sql_bool" where
  "sql_of_bool b = (if b then STrue else SFalse)"

fun and3 :: "sql_bool \<Rightarrow> sql_bool \<Rightarrow> sql_bool" where
  "and3 SFalse y = SFalse"
| "and3 x SFalse = SFalse"
| "and3 STrue STrue = STrue"
| "and3 x y = SNull"

fun or3 :: "sql_bool \<Rightarrow> sql_bool \<Rightarrow> sql_bool" where
  "or3 STrue y = STrue"
| "or3 x STrue = STrue"
| "or3 SFalse SFalse = SFalse"
| "or3 x y = SNull"

definition eq_sql :: "('r \<Rightarrow> 'v option) \<Rightarrow> 'v \<Rightarrow> 'r pred" where
  "eq_sql col v = (\<lambda>r. case col r of None \<Rightarrow> SNull | Some x \<Rightarrow> sql_of_bool (x = v))"

definition gt_sql :: "('r \<Rightarrow> int option) \<Rightarrow> int \<Rightarrow> 'r pred" where
  "gt_sql col v = (\<lambda>r. case col r of None \<Rightarrow> SNull | Some x \<Rightarrow> sql_of_bool (x > v))"

definition lt_sql :: "('r \<Rightarrow> int option) \<Rightarrow> int \<Rightarrow> 'r pred" where
  "lt_sql col v = (\<lambda>r. case col r of None \<Rightarrow> SNull | Some x \<Rightarrow> sql_of_bool (x < v))"

definition gte_sql :: "('r \<Rightarrow> int option) \<Rightarrow> int \<Rightarrow> 'r pred" where
  "gte_sql col v = (\<lambda>r. case col r of None \<Rightarrow> SNull | Some x \<Rightarrow> sql_of_bool (x \<ge> v))"

definition lte_sql :: "('r \<Rightarrow> int option) \<Rightarrow> int \<Rightarrow> 'r pred" where
  "lte_sql col v = (\<lambda>r. case col r of None \<Rightarrow> SNull | Some x \<Rightarrow> sql_of_bool (x \<le> v))"

text \<open>
  \<^verbatim>\<open>like(column, pattern)\<close>: the database's pattern match is a parameter, a function from
  the pattern and the column's text to whether the text matches.
\<close>

definition like_sql ::
  "(string \<Rightarrow> string \<Rightarrow> bool) \<Rightarrow> ('r \<Rightarrow> string option) \<Rightarrow> string \<Rightarrow> 'r pred" where
  "like_sql matcher col pattern =
     (\<lambda>r. case col r of None \<Rightarrow> SNull | Some x \<Rightarrow> sql_of_bool (matcher pattern x))"

definition and_sql :: "'r pred \<Rightarrow> 'r pred \<Rightarrow> 'r pred" where
  "and_sql p q = (\<lambda>r. and3 (p r) (q r))"

definition or_sql :: "'r pred \<Rightarrow> 'r pred \<Rightarrow> 'r pred" where
  "or_sql p q = (\<lambda>r. or3 (p r) (q r))"

text \<open>The columns the sources name in a predicate or an ordering.\<close>

definition users_id :: "user \<Rightarrow> int option" where
  "users_id r = Some (u_id r)"

definition users_email :: "user \<Rightarrow> string option" where
  "users_email r = Some (u_email r)"

definition users_username :: "user \<Rightarrow> string option" where
  "users_username r = Some (u_username r)"

definition users_age :: "user \<Rightarrow> int option" where
  "users_age r = u_age r"

section \<open>Query executor\<close>

text \<open>
  Modelled from the spec: \<^verbatim>\<open>db.select().from(table).where(p)\<close> runs in the client
  package and the database. Without a \<^verbatim>\<open>where\<close> every row is returned; with one, the
  rows on which the predicate is true, in the order of the table.
\<close>

fun selected :: "'r pred option \<Rightarrow> 'r \<Rightarrow> bool" where
  "selected None r = True"
| "selected (Some p) r = (p r = STrue)"

definition where_sql :: "'r pred option \<Rightarrow> 'r list \<Rightarrow> 'r list" where
  "where_sql w rows = filter (selected w) rows"

definition select_users :: "user pred option \<Rightarrow> db \<Rightarrow> user list" where
  "select_users w d = where_sql w (rows_users d)"











text \<open>
  \<^verbatim>\<open>searchUser\<close> of the command-line tool, with the three answers to its prompts as
  parameters:
  \<^verbatim>\<open>db.select().from(users).where(and(like(users.username, `%${username}%`),
  and(gte(users.age, minAge), lte(users.age, maxAge))))\<close>.
\<close>

definition searchUser ::
  "(string \<Rightarrow> string \<Rightarrow> bool) \<Rightarrow> string \<Rightarrow> int \<Rightarrow> int \<Rightarrow> db \<Rightarrow> user list" where
  "searchUser matcher username minAge maxAge d =
     select_users
       (Some (and_sql (like_sql matcher users_username (''%'' @ username @ ''%''))
                (and_sql (gte_sql users_age minAge) (lte_sql users_age maxAge)))) d"

section \<open>Mutation executor\<close>

text \<open>
  The values of an insert into \<^verbatim>\<open>users\<close> as the sources write them: an email, a
  username and, in some calls, an age (\<^verbatim>\<open>{ email, username }\<close> or
  \<^verbatim>\<open>{ email, username, age }\<close>). No call of the sources gives an id. An age that is
  left out takes the column's default, \<^verbatim>\<open>integer('age').default(0)\<close>.
\<close>

record new_user =
  nu_email :: string
  nu_username :: string
  nu_age :: "int option option"

definition users_age_default :: "int option" where
  "users_age_default =
     (case map col_default (filter (\<lambda>c. col_name c = ''age'') (tbl_columns users)) of
        [Some (DefaultInt n)] \<Rightarrow> Some n
      | _ \<Rightarrow> None)"

text \<open>
  Modelled from the spec: \<^verbatim>\<open>db.insert(users).values(...).returning()\<close> runs in the client
  package and the database. A batch with no record is refused by the client. An age
  outside 32 bits makes the statement fail when it is bound, nothing done. Then each
  record of the batch, in order, takes the next value of the id sequence, which ends at
  the largest 32-bit number; its username must fit the column, \<^verbatim>\<open>varchar(255)\<close>; and it
  is checked against the rows stored so far and the records of the batch before it: the
  primary key and the unique constraints of the table definition, in that order, whose
  breach is reported with the constraint's name and columns; absent values breach
  nothing. The first failure ends the statement and none of its rows is kept. The
  sequence values it took are not given back: the spec says that an identity is never
  assigned again, and the database never takes back a value of a sequence.
\<close>

fun varchar_limit :: "column list \<Rightarrow> string \<Rightarrow> nat option" where
  "varchar_limit [] c = None"
| "varchar_limit (x # xs) c =
     (if col_name x = c then (case col_type x of Varchar n \<Rightarrow> Some n | _ \<Rightarrow> None)
      else varchar_limit xs c)"

definition username_too_long :: "string \<Rightarrow> bool" where
  "username_too_long s =
     (case varchar_limit (tbl_columns users) ''username'' of
        None \<Rightarrow> False
      | Some n \<Rightarrow> n < length s)"

definition age_out_of_range :: "new_user \<Rightarrow> bool" where
  "age_out_of_range v = (case nu_age v of Some (Some a) \<Rightarrow> \<not> int4 a | _ \<Rightarrow> False)"

datatype sql_value = VInt int | VText string | VNull

definition user_column :: "string \<Rightarrow> user \<Rightarrow> sql_value" where
  "user_column c u =
     (if c = ''id'' then VInt (u_id u)
      else if c = ''username'' then VText (u_username u)
      else if c = ''email'' then VText (u_email u)
      else if c = ''age'' then (case u_age u of None \<Rightarrow> VNull | Some a \<Rightarrow> VInt a)
      else VNull)"

definition users_keys :: "unique_constraint list" where
  "users_keys =
     \<lparr>uq_name = tbl_name users @ ''_pkey'',
      uq_columns = map col_name (filter col_primary_key (tbl_columns users))\<rparr>
     # tbl_unique users"

definition key_of :: "unique_constraint \<Rightarrow> user \<Rightarrow> sql_value list" where
  "key_of k u = map (\<lambda>c. user_column c u) (uq_columns k)"

definition breaches :: "unique_constraint \<Rightarrow> user list \<Rightarrow> user \<Rightarrow> bool" where
  "breaches k tbl u = (VNull \<notin> set (key_of k u) \<and> key_of k u \<in> set (map (key_of k) tbl))"

fun first_breach :: "unique_constraint list \<Rightarrow> user list \<Rightarrow> user \<Rightarrow> error option" where
  "first_breach [] tbl u = None"
| "first_breach (k # ks) tbl u =
     (if breaches k tbl u then Some (UniqueViolation (uq_name k) (uq_columns k))
      else first_breach ks tbl u)"

definition unique_conflict :: "user list \<Rightarrow> user \<Rightarrow> error option" where
  "unique_conflict tbl u = first_breach users_keys tbl u"

definition insert_row :: "new_user \<Rightarrow> user list \<Rightarrow> int \<Rightarrow> (error + user) \<times> int" where
  "insert_row v tbl nxt =
     (if 2147483647 < nxt then (Inl (SequenceExhausted ''users_id_seq''), nxt)
      else
        let u = \<lparr>u_id = nxt, u_email = nu_email v, u_username = nu_username v,
                 u_age = (case nu_age v of None \<Rightarrow> users_age_default | Some a \<Rightarrow> a)\<rparr>
        in if username_too_long (u_username u) then (Inl (ValueTooLong ''username''), nxt + 1)
           else case unique_conflict tbl u of
                  Some e \<Rightarrow> (Inl e, nxt + 1)
                | None \<Rightarrow> (Inr u, nxt + 1))"

fun insert_rows :: "new_user list \<Rightarrow> user list \<Rightarrow> int \<Rightarrow> (error + user list) \<times> int" where
  "insert_rows [] tbl nxt = (Inr [], nxt)"
| "insert_rows (v # vs) tbl nxt =
     (case insert_row v tbl nxt of
        (Inl e, n) \<Rightarrow> (Inl e, n)
      | (Inr u, n) \<Rightarrow>
          (case insert_rows vs (tbl @ [u]) n of
             (Inl e, n') \<Rightarrow> (Inl e, n')
           | (Inr us, n') \<Rightarrow> (Inr (u # us), n')))"

definition insert_users :: "new_user list \<Rightarrow> db \<Rightarrow> (error + user list) \<times> db" where
  "insert_users vals d =
     (if vals = [] then (Inl NoValuesToInsert, d)
      else if list_ex age_out_of_range vals then (Inl (IntegerOutOfRange ''age''), d)
      else case insert_rows vals (rows_users d) (seq_users_id d) of
             (Inl e, n) \<Rightarrow> (Inl e, d\<lparr>seq_users_id := n\<rparr>)
           | (Inr us, n) \<Rightarrow> (Inr us, d\<lparr>rows_users := rows_users d @ us, seq_users_id := n\<rparr>))"

text \<open>
  The object given to \<^verbatim>\<open>.set(...)\<close>: each column of \<^verbatim>\<open>users\<close> is either left out
  or given its new value (for the nullable age, possibly null).
\<close>

record user_set =
  set_id :: "int option"
  set_email :: "string option"
  set_username :: "string option"
  set_age :: "int option option"

definition set_out_of_range :: "user_set \<Rightarrow> string option" where
  "set_out_of_range st =
     (case set_id st of
        Some i \<Rightarrow> if int4 i then
                   (case set_age st of
                      Some (Some a) \<Rightarrow> if int4 a then None else Some ''age''
                    | _ \<Rightarrow> None)
                 else Some ''id''
      | None \<Rightarrow>
          (case set_age st of
             Some (Some a) \<Rightarrow> if int4 a then None else Some ''age''
           | _ \<Rightarrow> None))"

definition set_too_long :: "user_set \<Rightarrow> bool" where
  "set_too_long st = (case set_username st of None \<Rightarrow> False | Some n \<Rightarrow> username_too_long n)"

definition set_is_empty :: "user_set \<Rightarrow> bool" where
  "set_is_empty st =
     (set_id st = None \<and> set_email st = None \<and> set_username st = None \<and> set_age st = None)"

definition apply_set :: "user_set \<Rightarrow> user \<Rightarrow> user" where
  "apply_set st u =
     \<lparr>u_id = (case set_id st of None \<Rightarrow> u_id u | Some i \<Rightarrow> i),
      u_email = (case set_email st of None \<Rightarrow> u_email u | Some e \<Rightarrow> e),
      u_username = (case set_username st of None \<Rightarrow> u_username u | Some n \<Rightarrow> n),
      u_age = (case set_age st of None \<Rightarrow> u_age u | Some a \<Rightarrow> a)\<rparr>"

text \<open>
  Modelled from the spec: \<^verbatim>\<open>db.update(users).set(...).where(p).returning()\<close> runs in the
  client package and the database. The rows the predicate selects take the new values; a
  new version of a row whose key under the primary key or a unique constraint is also
  held by another row of the table breaches that constraint (its key then occurs twice
  in the new table), the statement fails and the table is left as it was. Otherwise the
  new versions are returned. An object that sets no column is refused by the client; an
  id or an age outside 32 bits makes the statement fail when it is bound; a username too
  long for its column makes it fail when a row takes it.
\<close>

definition occurs_twice :: "'a \<Rightarrow> 'a list \<Rightarrow> bool" where
  "occurs_twice x xs = (1 < length (filter (\<lambda>y. y = x) xs))"

definition breaches_twice :: "unique_constraint \<Rightarrow> user list \<Rightarrow> user \<Rightarrow> bool" where
  "breaches_twice k tbl u =
     (VNull \<notin> set (key_of k u) \<and> occurs_twice (key_of k u) (map (key_of k) tbl))"

fun first_breach_twice :: "unique_constraint list \<Rightarrow> user list \<Rightarrow> user \<Rightarrow> error option" where
  "first_breach_twice [] tbl u = None"
| "first_breach_twice (k # ks) tbl u =
     (if breaches_twice k tbl u then Some (UniqueViolation (uq_name k) (uq_columns k))
      else first_breach_twice ks tbl u)"

definition update_conflict :: "user list \<Rightarrow> user \<Rightarrow> error option" where
  "update_conflict tbl u = first_breach_twice users_keys tbl u"

fun first_conflict :: "error option list \<Rightarrow> error option" where
  "first_conflict [] = None"
| "first_conflict (None # es) = first_conflict es"
| "first_conflict (Some e # es) = Some e"

definition update_users ::
  "user_set \<Rightarrow> user pred option \<Rightarrow> db \<Rightarrow> (error + user list) \<times> db" where
  "update_users st w d =
     (if set_is_empty st then (Inl NoValuesToSet, d)
      else case set_out_of_range st of
        Some c \<Rightarrow> (Inl (IntegerOutOfRange c), d)
      | None \<Rightarrow>
          let tbl = map (\<lambda>u. if selected w u then apply_set st u else u) (rows_users d);
              updated = map (apply_set st) (where_sql w (rows_users d))
          in if updated \<noteq> [] \<and> set_too_long st then (Inl (ValueTooLong ''username''), d)
             else case first_conflict (map (update_conflict tbl) updated) of
                    Some e \<Rightarrow> (Inl e, d)
                  | None \<Rightarrow> (Inr updated, d\<lparr>rows_users := tbl\<rparr>))"

text \<open>
  Modelled from the spec: \<^verbatim>\<open>db.delete(table).where(p).returning()\<close> runs in the client
  package and the database. The rows the predicate selects are removed and returned as
  they were; without a \<^verbatim>\<open>where\<close> every row is. No foreign key points at
  \<^verbatim>\<open>users\<close> or at \<^verbatim>\<open>tasks\<close>.
\<close>

definition delete_users :: "user pred option \<Rightarrow> db \<Rightarrow> (error + user list) \<times> db" where
  "delete_users w d =
     (Inr (where_sql w (rows_users d)),
      d\<lparr>rows_users := filter (\<lambda>r. \<not> selected w r) (rows_users d)\<rparr>)"


text \<open>
  Modelled from the spec: what the database does to the rows of \<^verbatim>\<open>tasks\<close> when rows of
  \<^verbatim>\<open>categories\<close> are deleted is set by the action of the foreign key on
  \<^verbatim>\<open>tasks.category_id\<close>. With \<^verbatim>\<open>set null\<close> a task that points at a deleted category
  has its category made absent; with \<^verbatim>\<open>set default\<close> it takes the column's default,
  which for this column is absent too; with \<^verbatim>\<open>cascade\<close> the task is deleted; with
  \<^verbatim>\<open>no action\<close> or \<^verbatim>\<open>restrict\<close> the delete fails while such a task exists.
\<close>

definition references :: "int list \<Rightarrow> task \<Rightarrow> bool" where
  "references ids t = (case t_categoryId t of None \<Rightarrow> False | Some c \<Rightarrow> c \<in> set ids)"

fun on_delete_tasks :: "on_delete_action \<Rightarrow> string \<Rightarrow> int list \<Rightarrow> task list \<Rightarrow> error + task list" where
  "on_delete_tasks SetNull nm ids ts =
     Inr (map (\<lambda>t. if references ids t then t\<lparr>t_categoryId := None\<rparr> else t) ts)"
| "on_delete_tasks SetDefault nm ids ts =
     Inr (map (\<lambda>t. if references ids t then t\<lparr>t_categoryId := None\<rparr> else t) ts)"
| "on_delete_tasks Cascade nm ids ts = Inr (filter (\<lambda>t. \<not> references ids t) ts)"
| "on_delete_tasks NoAction nm ids ts =
     (if list_ex (references ids) ts then Inl (ForeignKeyViolation nm) else Inr ts)"
| "on_delete_tasks Restrict nm ids ts =
     (if list_ex (references ids) ts then Inl (ForeignKeyViolation nm) else Inr ts)"

definition delete_categories ::
  "category pred option \<Rightarrow> db \<Rightarrow> (error + category list) \<times> db" where
  "delete_categories w d =
     (let deleted = where_sql w (rows_categories d)
      in case on_delete_tasks (fk_on_delete tasks_category_id_fkey)
                (fk_name tasks_category_id_fkey) (map c_id deleted) (rows_tasks d) of
           Inl e \<Rightarrow> (Inl e, d)
         | Inr ts \<Rightarrow>
             (Inr deleted,
              d\<lparr>rows_categories := filter (\<lambda>r. \<not> selected w r) (rows_categories d),
                rows_tasks := ts\<rparr>))"

section \<open>Transaction coordinator\<close>

text \<open>
  A piece of code that uses the connection is a function from the state to its result, a
  value or a failure, and the state it leaves; after a failure that is the state at the
  point of failure. \<open>bind_tx\<close> is one \<^verbatim>\<open>await\<close> after another, \<open>throw_tx\<close> a
  \<^verbatim>\<open>throw\<close>.
\<close>

type_synonym 'a tx = "db \<Rightarrow> (error + 'a) \<times> db"

definition return_tx :: "'a \<Rightarrow> 'a tx" where
  "return_tx v = (\<lambda>d. (Inr v, d))"

definition throw_tx :: "error \<Rightarrow> 'a tx" where
  "throw_tx e = (\<lambda>d. (Inl e, d))"

definition bind_tx :: "'a tx \<Rightarrow> ('a \<Rightarrow> 'b tx) \<Rightarrow> 'b tx" where
  "bind_tx m f = (\<lambda>d. case m d of (Inl e, d') \<Rightarrow> (Inl e, d') | (Inr v, d') \<Rightarrow> f v d')"

text \<open>
  Modelled from the spec: \<^verbatim>\<open>db.transaction(body)\<close> runs in the client package and the
  database. When the body returns, its value is returned and its effects stay; when it
  fails, the failure is passed on and every table is put back to the rows it held when the
  transaction began. A value taken from the id sequence is not given back, here as in a
  failed insert: the database does not roll a sequence back.
\<close>

definition transaction :: "'a tx \<Rightarrow> 'a tx" where
  "transaction body =
     (\<lambda>d. case body d of
             (Inr v, d') \<Rightarrow> (Inr v, d')
           | (Inl e, d') \<Rightarrow> (Inl e, d\<lparr>seq_users_id := seq_users_id d'\<rparr>))"

text \<open>
  The body of the transaction in the example script: an insert, an update of the inserted
  row, and the line \<^verbatim>\<open>throw new Error('Simulating a rollback')\<close>, which the script keeps
  as a comment to be uncommented. The parameter says whether that line is there.
\<close>

definition transactionBody :: "bool \<Rightarrow> user list tx" where
  "transactionBody simulate_rollback =
     bind_tx
       (insert_users
          [\<lparr>nu_email = ''transaction@example.com'', nu_username = ''Transaction User'',
            nu_age = None\<rparr>])
       (\<lambda>newUser.
          bind_tx
            (update_users
               \<lparr>set_id = None, set_email = None,
                set_username = Some ''Updated Transaction User'', set_age = None\<rparr>
               (Some (eq_sql users_email ''transaction@example.com'')))
            (\<lambda>updatedUser.
               if simulate_rollback then throw_tx (Thrown ''Simulating a rollback'')
               else return_tx updatedUser))"

definition transactionResult :: "bool \<Rightarrow> user list tx" where
  "transactionResult simulate_rollback = transaction (transactionBody simulate_rollback)"

section \<open>The user manager\<close>

text \<open>
  \<^verbatim>\<open>deleteUser\<close> and \<^verbatim>\<open>updateUser\<close> of the command-line tool. The answers to the
  prompts are parameters (\<open>ident\<close> is the source's \<^verbatim>\<open>id\<close>); what the function prints
  is its outcome. \<^verbatim>\<open>deleteUser\<close> returns early on an undefined id, deletes by id and
  looks at the length of what the delete returned. The prompts take every whole number
  from 1 on as an id (\<^verbatim>\<open>validator.isInt(..., { min: 1 })\<close>); the id is compared with
  \<^verbatim>\<open>users.id\<close>, so that one outside 32 bits makes the first statement that uses it
  fail. \<^verbatim>\<open>updateUser\<close> first selects by id and stops when nothing is found;
  then it builds \<^verbatim>\<open>updatePayload\<close> from the username, from the email when it is not
  empty and from the age when it is defined, updates by id and looks at the length of
  what the update returned.
\<close>

datatype outcome =
    InvalidId
  | NoUserFound
  | UserDeleted "user list"
  | UserUpdated "user list"


definition updatePayload :: "string \<Rightarrow> string \<Rightarrow> int option \<Rightarrow> user_set" where
  "updatePayload username newEmail age =
     \<lparr>set_id = None,
      set_email = (if newEmail \<noteq> [] then Some newEmail else None),
      set_username = Some username,
      set_age = (case age of None \<Rightarrow> None | Some a \<Rightarrow> Some (Some a))\<rparr>"

definition updateUser ::
  "int \<Rightarrow> string \<Rightarrow> string \<Rightarrow> int option \<Rightarrow> db \<Rightarrow> (error + outcome) \<times> db" where
  "updateUser ident username newEmail age d =
     (if \<not> int4 ident then (Inl (IntegerOutOfRange ''id''), d)
      else
        let target = select_users (Some (eq_sql users_id ident)) d
        in if length target = 0 then (Inr NoUserFound, d)
           else
             (case update_users (updatePayload username newEmail age)
                     (Some (eq_sql users_id ident)) d of
                (Inl e, d') \<Rightarrow> (Inl e, d')
              | (Inr result, d') \<Rightarrow>
                  (if length result > 0 then (Inr (UserUpdated result), d')
                   else (Inr NoUserFound, d'))))"

section \<open>Runs of mutations\<close>

text \<open>
  A run is a list of inserts, updates and deletes on \<^verbatim>\<open>users\<close>, applied one after the
  other whether or not one of them fails. \<open>run_mutations\<close> returns the ids of the rows
  that the inserts of the run created, in the order of their creation, and the state the
  run ends in.
\<close>

datatype mutation =
    Insert "new_user list"
  | Update user_set "user pred option"
  | Delete "user pred option"

fun apply_mutation :: "mutation \<Rightarrow> db \<Rightarrow> (error + user list) \<times> db" where
  "apply_mutation (Insert vals) d = insert_users vals d"
| "apply_mutation (Update st w) d = update_users st w d"
| "apply_mutation (Delete w) d = delete_users w d"

fun created_ids :: "mutation \<Rightarrow> error + user list \<Rightarrow> int list" where
  "created_ids (Insert vals) (Inr created) = map u_id created"
| "created_ids m r = []"

fun sets_no_id :: "mutation \<Rightarrow> bool" where
  "sets_no_id (Update st w) = (set_id st = None)"
| "sets_no_id m = True"

fun run_mutations :: "mutation list \<Rightarrow> db \<Rightarrow> int list \<times> db" where
  "run_mutations [] d = ([], d)"
| "run_mutations (m # ms) d =
     (case apply_mutation m d of
        (r, d') \<Rightarrow>
          (case run_mutations ms d' of
             (ids, d'') \<Rightarrow> (created_ids m r @ ids, d'')))"

section \<open>An example store\<close>

text \<open>
  A small store on which the properties below are evaluated: two users, one of them with
  no age, one category and one task in it.
\<close>

definition example_db :: db where
  "example_db =
     \<lparr>rows_users =
        [\<lparr>u_id = 1, u_email = ''eve@example.com'', u_username = ''eve'', u_age = Some 25\<rparr>,
         \<lparr>u_id = 2, u_email = ''nobody@example.com'', u_username = ''nobody'', u_age = None\<rparr>],
      seq_users_id = 3,
      rows_categories = [\<lparr>c_id = 1, c_name = ''home''\<rparr>],
      rows_tasks =
        [\<lparr>t_id = 1, t_title = ''water the plants'', t_done = Some False, t_createdAt = None,
          t_categoryId = Some 1\<rparr>,
         \<lparr>t_id = 2, t_title = ''read'', t_done = Some False, t_createdAt = None,
          t_categoryId = None\<rparr>]\<rparr>"



section \<open>Properties\<close>

subsection \<open>The two descriptions of the users table\<close>

text \<open>
  Claim C9. The table that the migration creates has the columns id, username and email and no
  column age, while the schema file declares users with a column age of default 0. The two
  descriptions differ, and they differ in exactly that column: the schema's columns are the
  migration's followed by age, and the name and the unique constraints agree.
\<close>

theorem users_migration_lacks_age:
  "map col_name (tbl_columns users_migration) = [''id'', ''username'', ''email'']
   \<and> ''age'' \<notin> set (map col_name (tbl_columns users_migration))
   \<and> filter (\<lambda>c. col_name c = ''age'') (tbl_columns users) =
       [\<lparr>col_name = ''age'', col_type = Integer, col_primary_key = False,
         col_not_null = False, col_default = Some (DefaultInt 0)\<rparr>]
   \<and> users_migration \<noteq> users
   \<and> tbl_columns users = tbl_columns users_migration @
       [\<lparr>col_name = ''age'', col_type = Integer, col_primary_key = False,
         col_not_null = False, col_default = Some (DefaultInt 0)\<rparr>]
   \<and> tbl_name users = tbl_name users_migration
   \<and> tbl_unique users = tbl_unique users_migration"
  by (simp add: users_def users_migration_def)

subsection \<open>Predicates\<close>

lemma and3_true: "(and3 x y = STrue) = (x = STrue \<and> y = STrue)"
  by (cases x; cases y) simp_all

lemma or3_true: "(or3 x y = STrue) = (x = STrue \<or> y = STrue)"
  by (cases x; cases y) simp_all

lemma and3_commute: "and3 x y = and3 y x"
  by (cases x; cases y) simp_all

lemma or3_commute: "or3 x y = or3 y x"
  by (cases x; cases y) simp_all

text \<open>
  Claim C4. For all predicates \<open>P\<close> and \<open>Q\<close> over one entity, the records that
  \<open>and(P, Q)\<close> matches are those matched by \<open>P\<close> and by \<open>Q\<close>, the records that
  \<open>or(P, Q)\<close> matches are those matched by \<open>P\<close> or by \<open>Q\<close>, and neither depends on
  the order of the two arguments.
\<close>

theorem and_or_match:
  "set (where_sql (Some (and_sql P Q)) rows) =
     set (where_sql (Some P) rows) \<inter> set (where_sql (Some Q) rows)
   \<and> set (where_sql (Some (or_sql P Q)) rows) =
     set (where_sql (Some P) rows) \<union> set (where_sql (Some Q) rows)
   \<and> where_sql (Some (and_sql P Q)) rows = where_sql (Some (and_sql Q P)) rows
   \<and> where_sql (Some (or_sql P Q)) rows = where_sql (Some (or_sql Q P)) rows"
proof -
  have a: "set (where_sql (Some (and_sql P Q)) rows) =
     set (where_sql (Some P) rows) \<inter> set (where_sql (Some Q) rows)"
    by (auto simp: where_sql_def and_sql_def and3_true)
  have b: "set (where_sql (Some (or_sql P Q)) rows) =
     set (where_sql (Some P) rows) \<union> set (where_sql (Some Q) rows)"
    by (auto simp: where_sql_def or_sql_def or3_true)
  have c: "and_sql P Q = and_sql Q P"
    by (rule ext) (simp add: and_sql_def and3_commute)
  have d: "or_sql P Q = or_sql Q P"
    by (rule ext) (simp add: or_sql_def or3_commute)
  from a b c d show ?thesis by simp
qed

text \<open>
  Claim C10. A stored user whose age is absent is never among the results of the search by
  name and age range, whatever the name, the two bounds and the pattern match are.
\<close>

theorem search_excludes_null_age:
  "u \<in> set (rows_users d) \<Longrightarrow> u_age u = None \<Longrightarrow>
     u \<notin> set (searchUser matcher username minAge maxAge d)"
  by (simp add: searchUser_def select_users_def where_sql_def and_sql_def and3_true
      gte_sql_def users_age_def)

text \<open>
  On the example store a search for every name and the ages 0 to 100 returns eve and leaves
  out the user without an age.
\<close>

theorem search_excludes_null_age_witness:
  "\<lparr>u_id = 2, u_email = ''nobody@example.com'', u_username = ''nobody'', u_age = None\<rparr>
     \<in> set (rows_users example_db)
   \<and> \<lparr>u_id = 2, u_email = ''nobody@example.com'', u_username = ''nobody'', u_age = None\<rparr>
     \<notin> set (searchUser (\<lambda>pattern text. True) [] 0 100 example_db)
   \<and> searchUser (\<lambda>pattern text. True) [] 0 100 example_db =
       [\<lparr>u_id = 1, u_email = ''eve@example.com'', u_username = ''eve'', u_age = Some 25\<rparr>]"
  using search_excludes_null_age
    [of "\<lparr>u_id = 2, u_email = ''nobody@example.com'', u_username = ''nobody'', u_age = None\<rparr>"
      example_db "\<lambda>pattern text. True" "[]" 0 100]
  by (simp add: example_db_def searchUser_def select_users_def where_sql_def and_sql_def
      like_sql_def gte_sql_def lte_sql_def users_age_def users_username_def sql_of_bool_def)

subsection \<open>Pagination\<close>
















subsection \<open>Delete\<close>



lemma on_delete_tasks_fkey:
  "on_delete_tasks (fk_on_delete tasks_category_id_fkey) nm ids ts =
     Inr (map (\<lambda>t. if references ids t then t\<lparr>t_categoryId := None\<rparr> else t) ts)"
  by (simp add: tasks_category_id_fkey_def)



subsection \<open>A predicate that matches nothing\<close>













subsection \<open>Batched insert\<close>

lemma users_keys_value:
  "users_keys =
     [\<lparr>uq_name = ''users_pkey'', uq_columns = [''id'']\<rparr>,
      \<lparr>uq_name = ''users_username_unique'', uq_columns = [''username'']\<rparr>,
      \<lparr>uq_name = ''users_email_unique'', uq_columns = [''email'']\<rparr>]"
  by (simp add: users_keys_def users_def)

lemma users_age_default_value: "users_age_default = Some 0"
  by (simp add: users_age_default_def users_def)

lemma key_of_id: "key_of \<lparr>uq_name = nm, uq_columns = [''id'']\<rparr> = (\<lambda>r. [VInt (u_id r)])"
  by (rule ext) (simp add: key_of_def user_column_def)

lemma key_of_username:
  "key_of \<lparr>uq_name = nm, uq_columns = [''username'']\<rparr> = (\<lambda>r. [VText (u_username r)])"
  by (rule ext) (simp add: key_of_def user_column_def)

lemma key_of_email:
  "key_of \<lparr>uq_name = nm, uq_columns = [''email'']\<rparr> = (\<lambda>r. [VText (u_email r)])"
  by (rule ext) (simp add: key_of_def user_column_def)

lemma unique_conflict_users:
  "unique_conflict tbl u =
     (if u_id u \<in> set (map u_id tbl) then Some (UniqueViolation ''users_pkey'' [''id''])
      else if u_username u \<in> set (map u_username tbl)
        then Some (UniqueViolation ''users_username_unique'' [''username''])
      else if u_email u \<in> set (map u_email tbl)
        then Some (UniqueViolation ''users_email_unique'' [''email''])
      else None)"
  by (auto simp: unique_conflict_def users_keys_value breaches_def key_of_id key_of_username
      key_of_email)

lemma occurs_twice_inj: "inj f \<Longrightarrow> occurs_twice (f x) (map f xs) = occurs_twice x xs"
  by (simp add: occurs_twice_def filter_map comp_def inj_eq)

lemma update_conflict_users:
  "update_conflict tbl u =
     (if occurs_twice (u_id u) (map u_id tbl) then Some (UniqueViolation ''users_pkey'' [''id''])
      else if occurs_twice (u_username u) (map u_username tbl)
        then Some (UniqueViolation ''users_username_unique'' [''username''])
      else if occurs_twice (u_email u) (map u_email tbl)
        then Some (UniqueViolation ''users_email_unique'' [''email''])
      else None)"
proof -
  have i: "occurs_twice [VInt (u_id u)] (map (\<lambda>r. [VInt (u_id r)]) tbl) =
      occurs_twice (u_id u) (map u_id tbl)"
    using occurs_twice_inj [of "\<lambda>i. [VInt i]" "u_id u" "map u_id tbl"]
    by (simp add: inj_def comp_def)
  have n: "occurs_twice [VText (u_username u)] (map (\<lambda>r. [VText (u_username r)]) tbl) =
      occurs_twice (u_username u) (map u_username tbl)"
    using occurs_twice_inj [of "\<lambda>i. [VText i]" "u_username u" "map u_username tbl"]
    by (simp add: inj_def comp_def)
  have e: "occurs_twice [VText (u_email u)] (map (\<lambda>r. [VText (u_email r)]) tbl) =
      occurs_twice (u_email u) (map u_email tbl)"
    using occurs_twice_inj [of "\<lambda>i. [VText i]" "u_email u" "map u_email tbl"]
    by (simp add: inj_def comp_def)
  show ?thesis
    by (simp add: update_conflict_def users_keys_value breaches_twice_def key_of_id
        key_of_username key_of_email i n e)
qed

lemma username_too_long_value: "username_too_long s = (255 < length s)"
  by (simp add: username_too_long_def users_def)

lemma insert_row_next: "n \<le> snd (insert_row v tbl n)"
  by (simp add: insert_row_def Let_def split: option.splits)

lemma insert_row_ok:
  "insert_row v tbl n = (Inr u, n') \<Longrightarrow>
     n' = n + 1 \<and> u_id u = n \<and> u_email u = nu_email v \<and> u_username u = nu_username v
     \<and> u_age u = (case nu_age v of None \<Rightarrow> users_age_default | Some a \<Rightarrow> a)
     \<and> unique_conflict tbl u = None"
  by (auto simp: insert_row_def Let_def split: option.splits if_splits)


lemma insert_rows_ok:
  "insert_rows vs tbl n = (Inr us, n') \<Longrightarrow>
     n' = n + int (length vs)
     \<and> map u_email us = map nu_email vs
     \<and> map u_username us = map nu_username vs
     \<and> map u_age us = map (\<lambda>v. case nu_age v of None \<Rightarrow> users_age_default | Some a \<Rightarrow> a) vs
     \<and> map u_id us = map (\<lambda>i. n + int i) [0..<length vs]"
proof (induction vs arbitrary: tbl n us n')
  case Nil
  then show ?case by simp
next
  case (Cons v vs)
  from Cons.prems obtain u n1 us1 where
    row: "insert_row v tbl n = (Inr u, n1)" and
    rest: "insert_rows vs (tbl @ [u]) n1 = (Inr us1, n')" and
    us: "us = u # us1"
    by (auto split: prod.splits sum.splits)
  from insert_row_ok [OF row] have u: "n1 = n + 1" "u_id u = n" "u_email u = nu_email v"
    "u_username u = nu_username v"
    "u_age u = (case nu_age v of None \<Rightarrow> users_age_default | Some a \<Rightarrow> a)"
    by simp_all
  from Cons.IH [OF rest] have ih:
    "n' = n1 + int (length vs)"
    "map u_email us1 = map nu_email vs"
    "map u_username us1 = map nu_username vs"
    "map u_age us1 = map (\<lambda>v. case nu_age v of None \<Rightarrow> users_age_default | Some a \<Rightarrow> a) vs"
    "map u_id us1 = map (\<lambda>i. n1 + int i) [0..<length vs]"
    by simp_all
  have ids: "map (\<lambda>i. n + int i) [0..<length (v # vs)] = n # map (\<lambda>i. n1 + int i) [0..<length vs]"
    unfolding u(1) by (simp add: upt_conv_Cons map_Suc_upt [symmetric] del: upt_Suc)
  from u ih us ids show ?case by simp
qed


lemma insert_rows_seq: "n \<le> snd (insert_rows vs tbl n)"
proof (induction vs arbitrary: tbl n)
  case Nil
  then show ?case by simp
next
  case (Cons v vs)
  show ?case
  proof (cases "insert_row v tbl n")
    case (Pair r n1)
    with insert_row_next [of n v tbl] have n1: "n \<le> n1" by simp
    show ?thesis
    proof (cases r)
      case (Inl e)
      with Pair n1 show ?thesis by simp
    next
      case (Inr u)
      from Cons.IH [of n1 "tbl @ [u]"] n1 have "n \<le> snd (insert_rows vs (tbl @ [u]) n1)" by simp
      with Pair Inr show ?thesis by (auto split: prod.splits sum.splits)
    qed
  qed
qed







subsection \<open>Transactions\<close>

lemma transaction_failure:
  "fst (body d) = Inl e \<Longrightarrow>
     fst (transaction body d) = Inl e
     \<and> rows_users (snd (transaction body d)) = rows_users d
     \<and> rows_tasks (snd (transaction body d)) = rows_tasks d
     \<and> rows_categories (snd (transaction body d)) = rows_categories d
     \<and> select_users w (snd (transaction body d)) = select_users w d"
  by (cases "body d") (auto simp: transaction_def select_users_def)

lemma insert_then_throw_fails:
  "\<exists>e'. fst (bind_tx (insert_users vals) (\<lambda>created. throw_tx e) d) = Inl e'"
  by (cases "insert_users vals d") (auto simp: bind_tx_def throw_tx_def split: sum.splits)

lemma transactionBody_rollback_fails: "\<exists>e'. fst (transactionBody True d) = Inl e'"
  by (auto simp: transactionBody_def bind_tx_def throw_tx_def split: sum.splits prod.splits)

text \<open>
  Claim C1. When the body of a transaction fails, whatever it did before, the transaction
  fails with the same failure and returns no value, and every table holds the rows it held
  before the transaction, so that every find on users returns what it returned before. A
  body that inserts a record and then throws always fails, the users are those from
  before, and a find for the record's email is empty afterwards when it was empty before.
  The same holds of the script's transaction once its line that throws is in place.
\<close>

theorem failed_transaction_rolls_back:
  "(fst (body d) = Inl e \<longrightarrow>
      fst (transaction body d) = Inl e
      \<and> rows_users (snd (transaction body d)) = rows_users d
      \<and> rows_tasks (snd (transaction body d)) = rows_tasks d
      \<and> rows_categories (snd (transaction body d)) = rows_categories d
      \<and> select_users w (snd (transaction body d)) = select_users w d)
   \<and> (\<exists>e'. fst (transaction (bind_tx (insert_users [v]) (\<lambda>created. throw_tx x)) d)
              = (Inl e' :: error + user list))
   \<and> rows_users (snd (transaction (bind_tx (insert_users [v])
                                      (\<lambda>created. throw_tx x :: user list tx)) d))
       = rows_users d
   \<and> (select_users (Some (eq_sql users_email (nu_email v))) d = [] \<longrightarrow>
        select_users (Some (eq_sql users_email (nu_email v)))
          (snd (transaction (bind_tx (insert_users [v])
                               (\<lambda>created. throw_tx x :: user list tx)) d)) = [])
   \<and> (\<exists>e'. fst (transactionResult True d) = Inl e')
   \<and> rows_users (snd (transactionResult True d)) = rows_users d"
proof -
  let ?t = "bind_tx (insert_users [v]) (\<lambda>created. throw_tx x :: user list tx)"
  from insert_then_throw_fails [of "[v]" x d]
  obtain e1 where e1: "fst (?t d) = Inl e1" ..
  from transactionBody_rollback_fails [of d]
  obtain e2 where e2: "fst (transactionBody True d) = Inl e2" ..
  note a = transaction_failure [of body d e w]
  note b = transaction_failure [of ?t d e1 "Some (eq_sql users_email (nu_email v))"]
  note c = transaction_failure [of "transactionBody True" d e2 w]
  from a b c e1 e2 show ?thesis
    by (simp add: transactionResult_def)
qed

text \<open>
  The script's body on the empty store, its line that throws in place: the body has
  inserted and renamed the user when it throws; the transaction fails with the thrown
  error, no user is stored and the find by the email is empty. Without that line the
  transaction returns the renamed user, who is stored.
\<close>

theorem failed_transaction_rolls_back_witness:
  "fst (transactionBody True empty_db) = Inl (Thrown ''Simulating a rollback'')
   \<and> rows_users (snd (transactionBody True empty_db)) =
       [\<lparr>u_id = 1, u_email = ''transaction@example.com'',
         u_username = ''Updated Transaction User'', u_age = Some 0\<rparr>]
   \<and> fst (transaction (transactionBody True) empty_db) = Inl (Thrown ''Simulating a rollback'')
   \<and> rows_users (snd (transaction (transactionBody True) empty_db)) = []
   \<and> select_users (Some (eq_sql users_email ''transaction@example.com''))
       (snd (transaction (transactionBody True) empty_db)) = []
   \<and> transactionResult False empty_db =
       (Inr [\<lparr>u_id = 1, u_email = ''transaction@example.com'',
               u_username = ''Updated Transaction User'', u_age = Some 0\<rparr>],
        \<lparr>rows_users =
           [\<lparr>u_id = 1, u_email = ''transaction@example.com'',
             u_username = ''Updated Transaction User'', u_age = Some 0\<rparr>],
         seq_users_id = 2, rows_categories = [], rows_tasks = []\<rparr>)"
proof -
  have body: "transactionBody True empty_db =
      (Inl (Thrown ''Simulating a rollback''),
       \<lparr>rows_users =
          [\<lparr>u_id = 1, u_email = ''transaction@example.com'',
            u_username = ''Updated Transaction User'', u_age = Some 0\<rparr>],
        seq_users_id = 2, rows_categories = [], rows_tasks = []\<rparr>)"
    by (simp add: transactionBody_def bind_tx_def throw_tx_def insert_users_def insert_row_def
        unique_conflict_users update_users_def set_is_empty_def where_sql_def eq_sql_def
        users_email_def sql_of_bool_def apply_set_def update_conflict_users occurs_twice_def
        users_age_default_value empty_db_def Let_def age_out_of_range_def
        username_too_long_value set_out_of_range_def set_too_long_def)
  have commit: "transactionBody False empty_db =
      (Inr [\<lparr>u_id = 1, u_email = ''transaction@example.com'',
               u_username = ''Updated Transaction User'', u_age = Some 0\<rparr>],
       \<lparr>rows_users =
          [\<lparr>u_id = 1, u_email = ''transaction@example.com'',
            u_username = ''Updated Transaction User'', u_age = Some 0\<rparr>],
        seq_users_id = 2, rows_categories = [], rows_tasks = []\<rparr>)"
    by (simp add: transactionBody_def bind_tx_def return_tx_def insert_users_def insert_row_def
        unique_conflict_users update_users_def set_is_empty_def where_sql_def eq_sql_def
        users_email_def sql_of_bool_def apply_set_def update_conflict_users occurs_twice_def
        users_age_default_value empty_db_def Let_def age_out_of_range_def
        username_too_long_value set_out_of_range_def set_too_long_def)
  from body failed_transaction_rolls_back
    [where body = "transactionBody True" and d = empty_db
      and e = "Thrown ''Simulating a rollback''"
      and w = "Some (eq_sql users_email ''transaction@example.com'')"]
  have "fst (transaction (transactionBody True) empty_db) = Inl (Thrown ''Simulating a rollback'')
   \<and> rows_users (snd (transaction (transactionBody True) empty_db)) = rows_users empty_db
   \<and> select_users (Some (eq_sql users_email ''transaction@example.com''))
       (snd (transaction (transactionBody True) empty_db)) =
      select_users (Some (eq_sql users_email ''transaction@example.com'')) empty_db"
    by simp
  with body commit show ?thesis
    by (simp add: transactionResult_def transaction_def select_users_def where_sql_def
        empty_db_def)
qed

subsection \<open>Identities\<close>

lemma update_users_ids:
  "set_id st = None \<Longrightarrow> map u_id (rows_users (snd (update_users st w d))) = map u_id (rows_users d)"
proof -
  assume noid: "set_id st = None"
  then have keep: "u_id (apply_set st u) = u_id u" for u
    by (simp add: apply_set_def)
  then have "map u_id (map (\<lambda>u. if selected w u then apply_set st u else u) (rows_users d))
      = map u_id (rows_users d)"
    by (simp add: comp_def if_distrib [of u_id] cong: if_cong)
  then show ?thesis
    by (simp add: update_users_def Let_def split: option.splits)
qed

lemma update_users_seq: "seq_users_id (snd (update_users st w d)) = seq_users_id d"
  by (simp add: update_users_def Let_def split: option.splits)

lemma delete_users_seq: "seq_users_id (snd (delete_users w d)) = seq_users_id d"
  by (simp add: delete_users_def)

lemma delete_users_rows: "set (rows_users (snd (delete_users w d))) \<subseteq> set (rows_users d)"
  by (auto simp: delete_users_def)

lemma updatePayload_no_id: "set_id (updatePayload username newEmail age) = None"
  by (simp add: updatePayload_def)

lemma updateUser_ids:
  "map u_id (rows_users (snd (updateUser i username newEmail age d))) = map u_id (rows_users d)"
proof (cases "\<not> int4 i \<or> select_users (Some (eq_sql users_id i)) d = []")
  case True
  then show ?thesis by (auto simp: updateUser_def)
next
  case False
  obtain r d' where upd:
    "update_users (updatePayload username newEmail age) (Some (eq_sql users_id i)) d = (r, d')"
    by (cases "update_users (updatePayload username newEmail age) (Some (eq_sql users_id i)) d")
  with update_users_ids [OF updatePayload_no_id, of username newEmail age "Some (eq_sql users_id i)" d]
  have "map u_id (rows_users d') = map u_id (rows_users d)" by simp
  with False upd show ?thesis
    by (cases r) (simp_all add: updateUser_def)
qed

lemma insert_users_step:
  assumes inv: "\<forall>u\<in>set (rows_users d). u_id u < seq_users_id d"
    and res: "insert_users vals d = (r, d')"
  shows "(\<forall>u\<in>set (rows_users d'). u_id u < seq_users_id d')
     \<and> seq_users_id d \<le> seq_users_id d'
     \<and> distinct (created_ids (Insert vals) r)
     \<and> (\<forall>i\<in>set (created_ids (Insert vals) r). seq_users_id d \<le> i \<and> i < seq_users_id d')
     \<and> set (map u_id (rows_users d')) =
         set (map u_id (rows_users d)) \<union> set (created_ids (Insert vals) r)"
proof (cases "vals = [] \<or> list_ex age_out_of_range vals")
  case True
  with res have same: "d' = d" and "\<exists>e. r = Inl e"
    by (auto simp: insert_users_def split: if_splits)
  then obtain e where "r = Inl e" by blast
  with same inv show ?thesis by simp
next
  case False
  obtain x n where rows: "insert_rows vals (rows_users d) (seq_users_id d) = (x, n)"
    by (cases "insert_rows vals (rows_users d) (seq_users_id d)")
  from insert_rows_seq [of "seq_users_id d" vals "rows_users d"] rows
  have mono: "seq_users_id d \<le> n" by simp
  show ?thesis
  proof (cases x)
    case (Inl e)
    with rows False res have "r = Inl e" "d' = d\<lparr>seq_users_id := n\<rparr>"
      by (auto simp: insert_users_def)
    with inv mono show ?thesis by auto
  next
    case (Inr us)
    with rows False res have r: "r = Inr us"
      and d': "d' = d\<lparr>rows_users := rows_users d @ us, seq_users_id := n\<rparr>"
      by (auto simp: insert_users_def)
    from insert_rows_ok [of vals "rows_users d" "seq_users_id d" us n] rows Inr
    have n: "n = seq_users_id d + int (length vals)"
      and ids: "map u_id us = map (\<lambda>i. seq_users_id d + int i) [0..<length vals]"
      by simp_all
    have dist: "distinct (map u_id us)"
      unfolding ids by (simp add: distinct_map inj_on_def)
    have range: "\<forall>i\<in>set (map u_id us). seq_users_id d \<le> i \<and> i < n"
      unfolding ids n by auto
    from range have new: "\<forall>u\<in>set us. u_id u < n" by auto
    from inv mono have old: "\<forall>u\<in>set (rows_users d). u_id u < n" by auto
    from r d' dist range new old mono show ?thesis by auto
  qed
qed

lemma run_mutations_ids:
  "\<forall>u\<in>set (rows_users d). u_id u < seq_users_id d \<Longrightarrow> \<forall>m\<in>set ms. sets_no_id m \<Longrightarrow>
     run_mutations ms d = (ids, d') \<Longrightarrow>
     (\<forall>u\<in>set (rows_users d'). u_id u < seq_users_id d')
     \<and> seq_users_id d \<le> seq_users_id d'
     \<and> distinct ids
     \<and> (\<forall>i\<in>set ids. seq_users_id d \<le> i \<and> i < seq_users_id d')
     \<and> set (map u_id (rows_users d')) \<subseteq> set (map u_id (rows_users d)) \<union> set ids"
proof (induction ms arbitrary: d ids d')
  case Nil
  then show ?case by simp
next
  case (Cons m ms)
  obtain r d1 where step: "apply_mutation m d = (r, d1)"
    by (cases "apply_mutation m d")
  obtain ids1 d2 where rest: "run_mutations ms d1 = (ids1, d2)"
    by (cases "run_mutations ms d1")
  from Cons.prems(3) step rest have ids: "ids = created_ids m r @ ids1" and d': "d' = d2"
    by simp_all
  have one: "(\<forall>u\<in>set (rows_users d1). u_id u < seq_users_id d1)
     \<and> seq_users_id d \<le> seq_users_id d1
     \<and> distinct (created_ids m r)
     \<and> (\<forall>i\<in>set (created_ids m r). seq_users_id d \<le> i \<and> i < seq_users_id d1)
     \<and> set (map u_id (rows_users d1)) \<subseteq> set (map u_id (rows_users d)) \<union> set (created_ids m r)"
  proof (cases m)
    case (Insert vals)
    with step insert_users_step [OF Cons.prems(1), of vals r d1] show ?thesis by simp
  next
    case (Update st w)
    with Cons.prems(2) have noid: "set_id st = None" by simp
    from update_users_ids [OF noid, of w d] update_users_seq [of st w d] step Update
    have same: "map u_id (rows_users d1) = map u_id (rows_users d)"
      "seq_users_id d1 = seq_users_id d"
      by simp_all
    from Cons.prems(1) have "\<forall>i\<in>set (map u_id (rows_users d)). i < seq_users_id d"
      by simp
    with same have "\<forall>i\<in>set (map u_id (rows_users d1)). i < seq_users_id d1"
      by simp
    then have "\<forall>u\<in>set (rows_users d1). u_id u < seq_users_id d1"
      by simp
    with same Update show ?thesis by simp
  next
    case (Delete w)
    with delete_users_rows [of w d] delete_users_seq [of w d] step
    have "set (rows_users d1) \<subseteq> set (rows_users d)" "seq_users_id d1 = seq_users_id d"
      by simp_all
    with Cons.prems(1) Delete show ?thesis by auto
  qed
  from Cons.prems(2) have "\<forall>m\<in>set ms. sets_no_id m" by simp
  from Cons.IH [OF _ this rest] one have two:
    "\<forall>u\<in>set (rows_users d2). u_id u < seq_users_id d2"
    "seq_users_id d1 \<le> seq_users_id d2"
    "distinct ids1"
    "\<forall>i\<in>set ids1. seq_users_id d1 \<le> i \<and> i < seq_users_id d2"
    "set (map u_id (rows_users d2)) \<subseteq> set (map u_id (rows_users d1)) \<union> set ids1"
    by simp_all
  from one have new_lt: "\<forall>i\<in>set (created_ids m r). i < seq_users_id d1"
    and new_ge: "\<forall>i\<in>set (created_ids m r). seq_users_id d \<le> i"
    and new_dist: "distinct (created_ids m r)"
    and mono1: "seq_users_id d \<le> seq_users_id d1"
    and sub1: "set (map u_id (rows_users d1)) \<subseteq>
        set (map u_id (rows_users d)) \<union> set (created_ids m r)"
    by simp_all
  from two(4) have old_ge: "\<forall>i\<in>set ids1. seq_users_id d1 \<le> i"
    and old_lt: "\<forall>i\<in>set ids1. i < seq_users_id d2"
    by simp_all
  from new_lt old_ge have disj: "set (created_ids m r) \<inter> set ids1 = {}"
    by fastforce
  with new_dist two(3) have dist: "distinct (created_ids m r @ ids1)"
    by simp
  from new_lt new_ge two(2) old_ge old_lt mono1
  have range: "\<forall>i\<in>set (created_ids m r @ ids1). seq_users_id d \<le> i \<and> i < seq_users_id d2"
    by fastforce
  from sub1 two(5) have sub: "set (map u_id (rows_users d2)) \<subseteq>
      set (map u_id (rows_users d)) \<union> set (created_ids m r @ ids1)"
    unfolding set_append by blast
  from mono1 two(2) have mono: "seq_users_id d \<le> seq_users_id d2"
    by simp
  from two(1) mono dist range sub show ?case
    unfolding ids d' by simp
qed

lemma insert_users_distinct:
  assumes inv: "\<forall>u\<in>set (rows_users d). u_id u < seq_users_id d"
    and dist: "distinct (map u_id (rows_users d))"
  shows "distinct (map u_id (rows_users (snd (insert_users vals d))))"
proof -
  obtain r d' where res: "insert_users vals d = (r, d')"
    by (cases "insert_users vals d")
  note step = insert_users_step [OF inv res]
  show ?thesis
  proof (cases r)
    case (Inl e)
    with res have "rows_users d' = rows_users d"
      by (auto simp: insert_users_def split: if_splits prod.splits sum.splits)
    with res dist show ?thesis by simp
  next
    case (Inr us)
    with res have rows: "rows_users d' = rows_users d @ us"
      by (auto simp: insert_users_def split: if_splits prod.splits sum.splits)
    from step Inr have new: "distinct (map u_id us)"
      "\<forall>i\<in>set (map u_id us). seq_users_id d \<le> i"
      by simp_all
    from inv have old: "\<forall>i\<in>set (map u_id (rows_users d)). i < seq_users_id d"
      by simp
    from new(2) old have "set (map u_id (rows_users d)) \<inter> set (map u_id us) = {}"
      by fastforce
    with dist new(1) rows res show ?thesis by simp
  qed
qed

lemma delete_users_distinct:
  "distinct (map u_id (rows_users d)) \<Longrightarrow>
     distinct (map u_id (rows_users (snd (delete_users w d))))"
  by (simp add: delete_users_def distinct_map_filter)

lemma run_mutations_distinct:
  "\<forall>u\<in>set (rows_users d). u_id u < seq_users_id d \<Longrightarrow> \<forall>m\<in>set ms. sets_no_id m \<Longrightarrow>
     distinct (map u_id (rows_users d)) \<Longrightarrow>
     distinct (map u_id (rows_users (snd (run_mutations ms d))))"
proof (induction ms arbitrary: d)
  case Nil
  then show ?case by simp
next
  case (Cons m ms)
  obtain r d1 where step: "apply_mutation m d = (r, d1)"
    by (cases "apply_mutation m d")
  obtain ids1 d2 where rest: "run_mutations ms d1 = (ids1, d2)"
    by (cases "run_mutations ms d1")
  from Cons.prems(2) have one: "\<forall>x\<in>set [m]. sets_no_id x" and more: "\<forall>x\<in>set ms. sets_no_id x"
    by simp_all
  have single: "run_mutations [m] d = (created_ids m r, d1)"
    using step by simp
  from run_mutations_ids [OF Cons.prems(1) one single]
  have inv1: "\<forall>u\<in>set (rows_users d1). u_id u < seq_users_id d1"
    by simp
  have dist1: "distinct (map u_id (rows_users d1))"
  proof (cases m)
    case (Insert vals)
    with step insert_users_distinct [OF Cons.prems(1) Cons.prems(3), of vals]
    show ?thesis by simp
  next
    case (Update st w)
    with Cons.prems(2) have "set_id st = None" by simp
    from update_users_ids [OF this, of w d] step Update Cons.prems(3)
    show ?thesis by simp
  next
    case (Delete w)
    with step delete_users_distinct [OF Cons.prems(3), of w]
    show ?thesis by simp
  qed
  from Cons.IH [OF inv1 more dist1] step rest show ?case by simp
qed

text \<open>
  Claim C8. The payload that \<open>updateUser\<close> builds never sets the id, and no user's id
  differs after \<open>updateUser\<close> from what it was before; the same holds of every update
  that does not set the id, as none in the sources does. The one change the store makes to
  tasks on its own, when categories are deleted, leaves every task's id as it was. Over
  every run of inserts, deletes
  and such updates, from a store whose ids lie below the id sequence: the ids given to
  created records are pairwise different, none is below the sequence value the run began
  with, so none is an id of a record stored before the run, deleted or not; every id in
  the store after the run is one that was there before or one the run created; and ids
  that were pairwise different before the run still are after it.
\<close>

theorem identity_is_permanent:
  "set_id (updatePayload username newEmail age) = None
   \<and> map u_id (rows_users (snd (updateUser i username newEmail age d))) = map u_id (rows_users d)
   \<and> (set_id st = None \<longrightarrow>
        map u_id (rows_users (snd (update_users st w d))) = map u_id (rows_users d))
   \<and> map t_id (rows_tasks (snd (delete_categories wc d))) = map t_id (rows_tasks d)
   \<and> ((\<forall>u\<in>set (rows_users d). u_id u < seq_users_id d) \<and> (\<forall>m\<in>set ms. sets_no_id m) \<longrightarrow>
        distinct (fst (run_mutations ms d))
        \<and> (\<forall>j\<in>set (fst (run_mutations ms d)).
              seq_users_id d \<le> j \<and> j \<notin> set (map u_id (rows_users d)))
        \<and> set (map u_id (rows_users (snd (run_mutations ms d)))) \<subseteq>
            set (map u_id (rows_users d)) \<union> set (fst (run_mutations ms d))
        \<and> (distinct (map u_id (rows_users d)) \<longrightarrow>
             distinct (map u_id (rows_users (snd (run_mutations ms d))))))"
proof -
  have run: "distinct (fst (run_mutations ms d))
        \<and> (\<forall>j\<in>set (fst (run_mutations ms d)).
              seq_users_id d \<le> j \<and> j \<notin> set (map u_id (rows_users d)))
        \<and> set (map u_id (rows_users (snd (run_mutations ms d)))) \<subseteq>
            set (map u_id (rows_users d)) \<union> set (fst (run_mutations ms d))
        \<and> (distinct (map u_id (rows_users d)) \<longrightarrow>
             distinct (map u_id (rows_users (snd (run_mutations ms d)))))"
    if inv: "\<forall>u\<in>set (rows_users d). u_id u < seq_users_id d"
      and noid: "\<forall>m\<in>set ms. sets_no_id m"
  proof -
    obtain ids d' where res: "run_mutations ms d = (ids, d')"
      by (cases "run_mutations ms d")
    note facts = run_mutations_ids [OF inv noid res]
    from inv have old: "\<forall>j\<in>set (map u_id (rows_users d)). j < seq_users_id d"
      by simp
    from facts have ge: "\<forall>j\<in>set ids. seq_users_id d \<le> j"
      by simp
    from ge old have fresh: "\<forall>j\<in>set ids. j \<notin> set (map u_id (rows_users d))"
      by fastforce
    from facts ge fresh res run_mutations_distinct [OF inv noid]
    show ?thesis by simp
  qed
  have tasks_ids: "map t_id (rows_tasks (snd (delete_categories wc d))) = map t_id (rows_tasks d)"
    by (simp add: delete_categories_def on_delete_tasks_fkey Let_def)
  from updatePayload_no_id [of username newEmail age] updateUser_ids [of i username newEmail age d]
    update_users_ids [of st w d] run tasks_ids
  show ?thesis by blast
qed

text \<open>
  On the example store, whose users have the ids 1 and 2: after every user is deleted, a
  created user gets the id 3, not one of the deleted users' ids; and \<open>updateUser\<close> on
  eve leaves the ids 1 and 2 in place.
\<close>

theorem identity_is_permanent_witness:
  "fst (run_mutations
          [Delete None,
           Insert [\<lparr>nu_email = ''later@example.com'', nu_username = ''later'', nu_age = None\<rparr>]]
          example_db) = [3]
   \<and> map u_id (rows_users example_db) = [1, 2]
   \<and> map u_id (rows_users (snd (run_mutations
          [Delete None,
           Insert [\<lparr>nu_email = ''later@example.com'', nu_username = ''later'', nu_age = None\<rparr>]]
          example_db))) = [3]
   \<and> map u_id (rows_users (snd (updateUser 1 ''eva'' [] (Some 26) example_db))) = [1, 2]"
proof -
  let ?ms = "[Delete None,
      Insert [\<lparr>nu_email = ''later@example.com'', nu_username = ''later'', nu_age = None\<rparr>]]"
  have run: "run_mutations ?ms example_db =
      ([3], \<lparr>rows_users =
               [\<lparr>u_id = 3, u_email = ''later@example.com'', u_username = ''later'',
                 u_age = Some 0\<rparr>],
             seq_users_id = 4,
             rows_categories = rows_categories example_db,
             rows_tasks = rows_tasks example_db\<rparr>)"
    by (simp add: delete_users_def insert_users_def insert_row_def unique_conflict_users
        where_sql_def users_age_default_value example_db_def Let_def age_out_of_range_def
        username_too_long_value)
  have ids: "map u_id (rows_users example_db) = [1, 2]"
    by (simp add: example_db_def)
  from ids identity_is_permanent [where d = example_db and ms = ?ms and i = 1
      and username = "''eva''" and newEmail = "[]" and age = "Some 26"]
  have "map u_id (rows_users (snd (updateUser 1 ''eva'' [] (Some 26) example_db))) = [1, 2]"
    by simp
  with run ids show ?thesis by simp
qed

end
